theory Spec2Isabelle
  imports Complex_Main
begin

section \<open>FoCal: the Filter Overlap Correction ALgorithm of \<^verbatim>\<open>focal.py\<close>\<close>

text \<open>
  The development embeds the class \<^verbatim>\<open>Focal\<close> of \<^verbatim>\<open>src/focal.py\<close> (Python 2 with
  NumPy): \<^verbatim>\<open>focal\<close>, \<^verbatim>\<open>adjust_with_correlation\<close>, \<^verbatim>\<open>local_coords_to_global_idx\<close>,
  \<^verbatim>\<open>global_to_single_coords\<close> and \<^verbatim>\<open>cell_type_from_global_coords\<close>.

  Conventions of the embedding.
  \<^item> A NumPy \<^verbatim>\<open>float64\<close> is a value of \<open>fval\<close>: minus infinity, a finite number, plus
    infinity or not-a-number. The special values follow IEEE 754 (\<open>inf - inf\<close> and
    \<open>0 * inf\<close> are not-a-number, not-a-number is unequal to everything, itself included).
    Finite numbers are exact reals: the rounding and the overflow of finite arithmetic
    are outside the model.
  \<^item> A two-dimensional NumPy array is an \<open>ndarray\<close>: its shape and its cells by
    coordinate. Only cells inside the shape are ever read.
  \<^item> Python 2's \<^verbatim>\<open>/\<close> on integers is floor division; every integer that is divided
    here is non-negative, so it is \<open>div\<close> on \<open>nat\<close>.
  \<^item> An exception is a value \<open>Inl e\<close> of the result; a normal return is \<open>Inr r\<close>.
  \<^item> The in-place updates of the composite image are explicit state passing.
\<close>

subsection \<open>Floating-point values\<close>

datatype fval = NInf | Fin real | PInf | NaN

text \<open>\<^verbatim>\<open>a - b\<close> on floats.\<close>

fun fsub :: "fval \<Rightarrow> fval \<Rightarrow> fval" where
  "fsub NaN b = NaN"
| "fsub a NaN = NaN"
| "fsub (Fin a) (Fin b) = Fin (a - b)"
| "fsub (Fin a) PInf = NInf"
| "fsub (Fin a) NInf = PInf"
| "fsub PInf PInf = NaN"
| "fsub PInf b = PInf"
| "fsub NInf NInf = NaN"
| "fsub NInf b = NInf"

text \<open>\<^verbatim>\<open>a * b\<close> on floats.\<close>

fun fsign :: "real \<Rightarrow> fval" where
  "fsign a = (if a = 0 then NaN else if 0 < a then PInf else NInf)"

fun fmul :: "fval \<Rightarrow> fval \<Rightarrow> fval" where
  "fmul NaN b = NaN"
| "fmul a NaN = NaN"
| "fmul (Fin a) (Fin b) = Fin (a * b)"
| "fmul (Fin a) PInf = fsign a"
| "fmul (Fin a) NInf = fsign (- a)"
| "fmul PInf (Fin b) = fsign b"
| "fmul NInf (Fin b) = fsign (- b)"
| "fmul PInf PInf = PInf"
| "fmul NInf NInf = PInf"
| "fmul PInf NInf = NInf"
| "fmul NInf PInf = NInf"

text \<open>\<^verbatim>\<open>a == b\<close> and \<^verbatim>\<open>a <= b\<close> on floats: false whenever an operand is not-a-number.\<close>

fun feq :: "fval \<Rightarrow> fval \<Rightarrow> bool" where
  "feq NaN b = False"
| "feq a NaN = False"
| "feq a b = (a = b)"

fun fle :: "fval \<Rightarrow> fval \<Rightarrow> bool" where
  "fle NaN b = False"
| "fle a NaN = False"
| "fle NInf b = True"
| "fle a PInf = True"
| "fle (Fin a) (Fin b) = (a \<le> b)"
| "fle a b = False"

subsection \<open>Errors and arrays\<close>

datatype error = IndexError | ValueError | ZeroDivisionError

record ndarray =
  nrows :: nat
  ncols :: nat
  cell :: "nat \<times> nat \<Rightarrow> fval"

text \<open>The cells in row-major order, which is the order \<^verbatim>\<open>numpy.argmax\<close> scans.\<close>

definition ravel :: "ndarray \<Rightarrow> fval list" where
  "ravel a = map (\<lambda>i. cell a (i div ncols a, i mod ncols a)) [0..<nrows a * ncols a]"

text \<open>
  \<^verbatim>\<open>numpy.argmax\<close> on a flat float array: the index of the first not-a-number if there
  is one, otherwise of the first occurrence of the maximum. The scan is NumPy's: it
  keeps the running maximum \<open>mp\<close> and its index, replaces them when \<^verbatim>\<open>!(x <= mp)\<close>, and
  stops at a not-a-number. On an empty array NumPy raises \<^verbatim>\<open>ValueError\<close>.
\<close>

fun argmax_scan :: "fval list \<Rightarrow> nat \<Rightarrow> fval \<Rightarrow> nat \<Rightarrow> nat" where
  "argmax_scan [] i mp max_ind = max_ind"
| "argmax_scan (x # xs) i mp max_ind =
     (if fle x mp then argmax_scan xs (Suc i) mp max_ind
      else if x = NaN then i
      else argmax_scan xs (Suc i) x i)"

fun numpy_argmax :: "fval list \<Rightarrow> error + nat" where
  "numpy_argmax [] = Inl ValueError"
| "numpy_argmax (x # xs) = Inr (if x = NaN then 0 else argmax_scan xs 1 x 0)"

text \<open>
  The length of the slice \<^verbatim>\<open>a[lo:hi]\<close> of a dimension of length \<open>n\<close>, for
  \<open>0 \<le> lo\<close> and \<open>0 \<le> hi\<close>: both bounds are clipped to \<open>n\<close>.
\<close>

definition slice_len :: "nat \<Rightarrow> nat \<Rightarrow> nat \<Rightarrow> nat" where
  "slice_len n lo hi = min hi n - min lo n"

text \<open>
  Whether an array of shape \<open>(p, q)\<close> can be assigned to, or subtracted in place from, a
  slice of shape \<open>(m, n)\<close>: NumPy broadcasts a dimension of length 1 and raises
  \<^verbatim>\<open>ValueError\<close> on any other mismatch.
\<close>

definition broadcastable :: "nat \<times> nat \<Rightarrow> nat \<times> nat \<Rightarrow> bool" where
  "broadcastable src dst =
     ((fst src = fst dst \<or> fst src = 1) \<and> (snd src = snd dst \<or> snd src = 1))"

text \<open>The index into a source dimension of length \<open>p\<close> that position \<open>i\<close> of the
  destination reads.\<close>

definition bidx :: "nat \<Rightarrow> nat \<Rightarrow> nat" where
  "bidx p i = (if p = 1 then 0 else i)"

text \<open>Whether \<open>(r, c)\<close> lies in the slice of \<open>m\<close> rows from \<open>r0\<close> and \<open>n\<close> columns from \<open>c0\<close>.\<close>

definition in_window :: "nat \<Rightarrow> nat \<Rightarrow> nat \<Rightarrow> nat \<Rightarrow> nat \<times> nat \<Rightarrow> bool" where
  "in_window r0 c0 m n p = (r0 \<le> fst p \<and> fst p < r0 + m \<and> c0 \<le> snd p \<and> snd p < c0 + n)"

text \<open>
  \<^verbatim>\<open>numpy.where(a[r0:r0+m, c0:c0+n] == v)\<close>: the coordinates, \<^bold>\<open>relative to the slice\<close>, of
  the cells of the slice that compare equal to \<open>v\<close>.
\<close>

definition where_eq :: "ndarray \<Rightarrow> nat \<Rightarrow> nat \<Rightarrow> nat \<Rightarrow> nat \<Rightarrow> fval \<Rightarrow> (nat \<times> nat) list" where
  "where_eq a r0 c0 m n v =
     filter (\<lambda>p. feq (cell a (r0 + fst p, c0 + snd p)) v) (List.product [0..<m] [0..<n])"

text \<open>\<^verbatim>\<open>a[indices] = f(a[indices])\<close> for a list of coordinates of the whole array.\<close>

definition update_at :: "ndarray \<Rightarrow> (nat \<times> nat) list \<Rightarrow> (fval \<Rightarrow> fval) \<Rightarrow> ndarray" where
  "update_at a indices f =
     a\<lparr>cell := (\<lambda>p. if p \<in> set indices then f (cell a p) else cell a p)\<rparr>"

subsection \<open>Coordinate utilities\<close>

text \<open>
  Modelled from the spec: \<^verbatim>\<open>idx2coord\<close> is imported from the package's \<^verbatim>\<open>__init__\<close>,
  which is not among the sources. It is the inverse of the row-major flattening "using
  the global row stride": the call \<^verbatim>\<open>row, col = idx2coord(max_idx, img_width)\<close> gets the row
  and the column of a flat index. A zero width is a division by zero.
\<close>

definition idx2coord :: "nat \<Rightarrow> nat \<Rightarrow> error + nat \<times> nat" where
  "idx2coord idx width =
     (if width = 0 then Inl ZeroDivisionError else Inr (idx div width, idx mod width))"

text \<open>\<^verbatim>\<open>numpy.unravel_index(idx, shape)\<close>; an index outside the shape is a \<^verbatim>\<open>ValueError\<close>.\<close>

definition unravel_index :: "nat \<Rightarrow> nat \<times> nat \<Rightarrow> error + nat \<times> nat" where
  "unravel_index idx shape =
     (if idx < fst shape * snd shape then Inr (idx div snd shape, idx mod snd shape)
      else Inl ValueError)"

definition local_coords_to_global_idx ::
  "nat \<times> nat \<Rightarrow> nat \<Rightarrow> nat \<times> nat \<Rightarrow> nat \<times> nat \<Rightarrow> nat" where
  "local_coords_to_global_idx coords cell_type local_img_shape global_img_shape =
     (let row_add = cell_type div 2;
          col_add = cell_type mod 2;
          global_coords = (fst coords + row_add * fst local_img_shape,
                           snd coords + col_add * snd local_img_shape);
          global_idx = fst global_coords * snd global_img_shape + snd global_coords
      in global_idx)"

definition global_to_single_coords :: "nat \<times> nat \<Rightarrow> nat \<times> nat \<Rightarrow> error + nat \<times> nat" where
  "global_to_single_coords coords single_shape =
     (if fst single_shape = 0 \<or> snd single_shape = 0 then Inl ZeroDivisionError
      else
        let row_count = fst coords div fst single_shape;
            col_count = snd coords div snd single_shape;
            new_row = fst coords - fst single_shape * row_count;
            new_col = snd coords - snd single_shape * col_count
        in Inr (new_row, new_col))"

definition cell_type_from_global_coords :: "nat \<times> nat \<Rightarrow> nat \<times> nat \<Rightarrow> error + nat" where
  "cell_type_from_global_coords coords single_shape =
     (if fst single_shape = 0 \<or> snd single_shape = 0 then Inl ZeroDivisionError
      else
        let row_type = fst coords div fst single_shape;
            col_type = snd coords div snd single_shape;
            cell_type = row_type * 2 + col_type
        in Inr cell_type)"

subsection \<open>The overlap correction\<close>

text \<open>
  \<^verbatim>\<open>img[r0:r1, c0:c1] -= max_val*correlation[k0:k1, l0:l1]\<close>: both slices are clipped to
  their arrays, the scaled kernel slice is broadcast to the image slice, and a shape
  that does not broadcast raises \<^verbatim>\<open>ValueError\<close>.
\<close>

definition isub_scaled ::
  "ndarray \<Rightarrow> nat \<times> nat \<Rightarrow> nat \<times> nat \<Rightarrow> fval \<Rightarrow> ndarray \<Rightarrow> nat \<times> nat \<Rightarrow> nat \<times> nat
     \<Rightarrow> error + ndarray" where
  "isub_scaled img rows cols max_val correlation krows kcols =
     (let m = slice_len (nrows img) (fst rows) (snd rows);
          n = slice_len (ncols img) (fst cols) (snd cols);
          p = slice_len (nrows correlation) (fst krows) (snd krows);
          q = slice_len (ncols correlation) (fst kcols) (snd kcols)
      in if broadcastable (p, q) (m, n)
         then Inr (img\<lparr>cell := (\<lambda>x.
                if in_window (fst rows) (fst cols) m n x
                then fsub (cell img x)
                       (fmul max_val
                          (cell correlation (fst krows + bidx p (fst x - fst rows),
                                             fst kcols + bidx q (snd x - fst cols))))
                else cell img x)\<rparr>)
         else Inl ValueError)"

text \<open>
  \<^verbatim>\<open>adjust_with_correlation\<close> (lines 170 to 234). The differences \<open>row - half_correlation_width\<close>
  and \<open>col - half_correlation_width\<close> may be negative in Python; they are only used under
  \<open>max\<close> with the non-negative \<open>up_lim\<close> and \<open>left_lim\<close>, so truncating them at 0 gives the
  same limits. Every other subtraction has a non-negative result. The indices that
  \<^verbatim>\<open>numpy.where\<close> finds in the window are relative to the window, and the source uses them
  to index the whole image.
\<close>

definition adjust_with_correlation ::
  "ndarray \<Rightarrow> ndarray \<Rightarrow> nat \<Rightarrow> fval \<Rightarrow> bool \<Rightarrow> error + ndarray" where
  "adjust_with_correlation img correlation max_idx max_val is_max_val_layer =
     (let img_height = nrows img;
          img_width = ncols img;
          correlation_width = nrows correlation;
          half_correlation_width = correlation_width div 2;
          half_img_width = img_width div 2;
          half_img_height = img_height div 2
      in case idx2coord max_idx img_width of
           Inl e \<Rightarrow> Inl e
         | Inr (row, col) \<Rightarrow>
             if half_img_height = 0 \<or> half_img_width = 0 then Inl ZeroDivisionError
             else
               let row_idx = row div half_img_height;
                   col_idx = col div half_img_width;
                   up_lim = row_idx * half_img_height;
                   left_lim = col_idx * half_img_width;
                   down_lim = (row_idx + 1) * half_img_height;
                   right_lim = (col_idx + 1) * half_img_width;
                   max_img_row = min (down_lim - 1) (row + half_correlation_width + 1);
                   max_img_col = min (right_lim - 1) (col + half_correlation_width + 1);
                   min_img_row = max up_lim (row - half_correlation_width);
                   min_img_col = max left_lim (col - half_correlation_width);
                   max_img_row_diff = max_img_row - row;
                   max_img_col_diff = max_img_col - col;
                   min_img_row_diff = row - min_img_row;
                   min_img_col_diff = col - min_img_col;
                   min_knl_row = half_correlation_width - min_img_row_diff;
                   min_knl_col = half_correlation_width - min_img_col_diff;
                   max_knl_row = half_correlation_width + max_img_row_diff;
                   max_knl_col = half_correlation_width + max_img_col_diff
               in case isub_scaled img (min_img_row, max_img_row) (min_img_col, max_img_col)
                         max_val correlation (min_knl_row, max_knl_row) (min_knl_col, max_knl_col) of
                    Inl e \<Rightarrow> Inl e
                  | Inr img1 \<Rightarrow>
                      let m = slice_len img_height min_img_row max_img_row;
                          n = slice_len img_width min_img_col max_img_col;
                          inf_indices = where_eq img1 min_img_row min_img_col m n PInf;
                          img2 = update_at img1 inf_indices (\<lambda>x. Fin 0);
                          img3 = update_at img2 inf_indices (\<lambda>x. fsub x PInf);
                          nan_indices = where_eq img3 min_img_row min_img_col m n NaN;
                          img4 = update_at img3 nan_indices (\<lambda>x. Fin 0);
                          img5 = update_at img4 nan_indices (\<lambda>x. fsub x PInf)
                      in if is_max_val_layer
                         then (if row < img_height
                               then Inr (update_at img5 [(row, col)] (\<lambda>x. fsub x PInf))
                               else Inl IndexError)
                         else Inr img5)"

subsection \<open>The composite image\<close>

text \<open>\<^verbatim>\<open>numpy.sum(a != 0)\<close>: not-a-number counts as non-zero.\<close>

definition count_nonzero :: "ndarray \<Rightarrow> nat" where
  "count_nonzero a = length (filter (\<lambda>x. \<not> feq x (Fin 0)) (ravel a))"

definition zeros :: "nat \<times> nat \<Rightarrow> ndarray" where
  "zeros shape = \<lparr>nrows = fst shape, ncols = snd shape, cell = (\<lambda>x. Fin 0)\<rparr>"

text \<open>\<^verbatim>\<open>tmp_img[numpy.where(tmp_img == 0)] = -numpy.inf\<close> on a copy of the image.\<close>

definition zeros_to_neg_inf :: "ndarray \<Rightarrow> ndarray" where
  "zeros_to_neg_inf a =
     update_at a (where_eq a 0 0 (nrows a) (ncols a) (Fin 0)) (\<lambda>x. NInf)"

text \<open>\<^verbatim>\<open>big[r0:r1, c0:c1] = src\<close>, with NumPy's clipping and broadcasting.\<close>

definition assign_slice ::
  "ndarray \<Rightarrow> nat \<times> nat \<Rightarrow> nat \<times> nat \<Rightarrow> ndarray \<Rightarrow> error + ndarray" where
  "assign_slice big rows cols src =
     (let m = slice_len (nrows big) (fst rows) (snd rows);
          n = slice_len (ncols big) (fst cols) (snd cols)
      in if broadcastable (nrows src, ncols src) (m, n)
         then Inr (big\<lparr>cell := (\<lambda>x.
                if in_window (fst rows) (fst cols) m n x
                then cell src (bidx (nrows src) (fst x - fst rows),
                               bidx (ncols src) (snd x - fst cols))
                else cell big x)\<rparr>)
         else Inl ValueError)"

definition big_coords :: "nat \<Rightarrow> nat \<Rightarrow> (nat \<times> nat) list" where
  "big_coords height width = [(0, 0), (0, width), (height, 0), (height, width)]"

text \<open>
  The loop of lines 88 to 92 over \<^verbatim>\<open>cell_type in range(num_images)\<close>; the list holds the
  images from \<open>cell_type\<close> on. \<^verbatim>\<open>big_coords\<close> has four entries, so a fifth image is an
  \<^verbatim>\<open>IndexError\<close>.
\<close>

fun fill_big_image :: "ndarray list \<Rightarrow> nat \<Rightarrow> nat \<Rightarrow> nat \<Rightarrow> ndarray \<Rightarrow> error + ndarray" where
  "fill_big_image [] cell_type height width big_image = Inr big_image"
| "fill_big_image (img # rest) cell_type height width big_image =
     (if 4 \<le> cell_type then Inl IndexError
      else
        let row = fst (big_coords height width ! cell_type);
            col = snd (big_coords height width ! cell_type);
            tmp_img = zeros_to_neg_inf img
        in case assign_slice big_image (row, row + height) (col, col + width) tmp_img of
             Inl e \<Rightarrow> Inl e
           | Inr b \<Rightarrow> fill_big_image rest (Suc cell_type) height width b)"

definition build_big_image :: "ndarray list \<Rightarrow> nat \<Rightarrow> nat \<Rightarrow> error + ndarray" where
  "build_big_image spike_images height width =
     (let big_shape = (height * 2, width * 2);
          big_image = zeros big_shape
      in fill_big_image spike_images 0 height width big_image)"

subsection \<open>The selection loop\<close>

text \<open>A spike is the list \<^verbatim>\<open>[local_idx, max_val, cell_type]\<close> that the loop appends.\<close>

type_synonym spike = "nat \<times> fval \<times> nat"

record focal_state =
  big_image :: ndarray
  ordered_spikes :: "spike list"
  wrong_max :: bool

text \<open>
  The loop of lines 127 to 139 over \<^verbatim>\<open>overlap_cell_type in range(len(spike_images))\<close>.
  The correlations of the \<^verbatim>\<open>Correlation\<close> object, which is not among the sources, are
  the parameter \<open>correlations\<close>: \<open>correlations i j\<close> is \<^verbatim>\<open>self.correlations[i][j]\<close>.
\<close>

fun correct_overlaps ::
  "(nat \<Rightarrow> nat \<Rightarrow> ndarray) \<Rightarrow> nat list \<Rightarrow> nat \<times> nat \<Rightarrow> nat \<Rightarrow> fval \<Rightarrow> nat \<times> nat \<Rightarrow> nat \<times> nat
     \<Rightarrow> ndarray \<Rightarrow> error + ndarray" where
  "correct_overlaps correlations [] single_coords cell_type max_val img_shape big_shape big =
     Inr big"
| "correct_overlaps correlations (overlap_cell_type # rest) single_coords cell_type max_val
       img_shape big_shape big =
     (let overlap_idx =
            local_coords_to_global_idx single_coords overlap_cell_type img_shape big_shape;
          is_max_val_layer = (overlap_cell_type = cell_type)
      in case adjust_with_correlation big (correlations cell_type overlap_cell_type)
                overlap_idx max_val is_max_val_layer of
           Inl e \<Rightarrow> Inl e
         | Inr b \<Rightarrow>
             correct_overlaps correlations rest single_coords cell_type max_val
               img_shape big_shape b)"

text \<open>
  One pass through the body of the main loop (lines 96 to 139). The result is the new
  state and whether the loop was left by \<^verbatim>\<open>break\<close>. The progress line divides by
  \<^verbatim>\<open>float(total_spikes-1)\<close>, a division of Python floats, which raises
  \<^verbatim>\<open>ZeroDivisionError\<close> when \<open>total_spikes\<close> is 1. The write to the error stream is the
  flag \<open>wrong_max\<close>.
\<close>

definition focal_body ::
  "(nat \<Rightarrow> nat \<Rightarrow> ndarray) \<Rightarrow> nat \<Rightarrow> nat \<times> nat \<Rightarrow> nat \<Rightarrow> focal_state
     \<Rightarrow> error + bool \<times> focal_state" where
  "focal_body correlations num_images img_shape total_spikes s =
     (let height = fst img_shape;
          width = snd img_shape;
          big_shape = (height * 2, width * 2)
      in if total_spikes = 1 then Inl ZeroDivisionError
         else
           case numpy_argmax (ravel (big_image s)) of
             Inl e \<Rightarrow> Inl e
           | Inr max_idx \<Rightarrow>
               (case unravel_index max_idx big_shape of
                  Inl e \<Rightarrow> Inl e
                | Inr max_coords \<Rightarrow>
                    let max_val = cell (big_image s) max_coords
                    in if feq max_val PInf \<or> feq max_val NInf \<or> feq max_val NaN
                       then Inr (True, s\<lparr>wrong_max := True\<rparr>)
                       else
                         case (if fst max_coords < height \<and> snd max_coords < width
                               then Inr max_coords
                               else global_to_single_coords max_coords img_shape) of
                           Inl e \<Rightarrow> Inl e
                         | Inr single_coords \<Rightarrow>
                             let local_idx = fst single_coords * width + snd single_coords
                             in case cell_type_from_global_coords max_coords img_shape of
                                  Inl e \<Rightarrow> Inl e
                                | Inr cell_type \<Rightarrow>
                                    (case correct_overlaps correlations [0..<num_images]
                                            single_coords cell_type max_val img_shape
                                            big_shape (big_image s) of
                                       Inl e \<Rightarrow> Inl e
                                     | Inr b \<Rightarrow>
                                         Inr (False,
                                              s\<lparr>big_image := b,
                                                ordered_spikes :=
                                                  ordered_spikes s @
                                                    [(local_idx, max_val, cell_type)]\<rparr>))))"

text \<open>\<^verbatim>\<open>for count in xrange(max_cycles)\<close>, by the number of passes that remain.\<close>

fun focal_loop ::
  "(nat \<Rightarrow> nat \<Rightarrow> ndarray) \<Rightarrow> nat \<Rightarrow> nat \<times> nat \<Rightarrow> nat \<Rightarrow> nat \<Rightarrow> focal_state
     \<Rightarrow> error + focal_state" where
  "focal_loop correlations num_images img_shape total_spikes 0 s = Inr s"
| "focal_loop correlations num_images img_shape total_spikes (Suc k) s =
     (case focal_body correlations num_images img_shape total_spikes s of
        Inl e \<Rightarrow> Inl e
      | Inr (True, s') \<Rightarrow> Inr s'
      | Inr (False, s') \<Rightarrow> focal_loop correlations num_images img_shape total_spikes k s')"

text \<open>Python's \<^verbatim>\<open>int\<close> of a float truncates towards zero.\<close>

definition py_int :: "real \<Rightarrow> int" where
  "py_int x = (if 0 \<le> x then \<lfloor>x\<rfloor> else \<lceil>x\<rceil>)"

text \<open>\<^verbatim>\<open>total_spikes\<close>: the non-zero cells of all the images (lines 75 to 79).\<close>

definition total_nonzero :: "ndarray list \<Rightarrow> nat" where
  "total_nonzero spike_images = sum_list (map count_nonzero spike_images)"

text \<open>\<^verbatim>\<open>max_cycles\<close> (line 82) as the number of passes of \<^verbatim>\<open>xrange(max_cycles)\<close>: none when
  it is negative.\<close>

definition budget :: "ndarray list \<Rightarrow> real \<Rightarrow> nat" where
  "budget spike_images spikes_per_unit =
     nat (py_int (spikes_per_unit * real (total_nonzero spike_images)))"

text \<open>
  \<^verbatim>\<open>focal\<close> (lines 52 to 142). \<^verbatim>\<open>spike_images[0]\<close> of an empty list is an \<^verbatim>\<open>IndexError\<close>.
  The result is the returned list together with the flag of the error stream.
\<close>

definition focal ::
  "ndarray list \<Rightarrow> (nat \<Rightarrow> nat \<Rightarrow> ndarray) \<Rightarrow> real \<Rightarrow> error + spike list \<times> bool" where
  "focal spike_images correlations spikes_per_unit =
     (case spike_images of
        [] \<Rightarrow> Inl IndexError
      | img0 # rest \<Rightarrow>
          let img_shape = (nrows img0, ncols img0);
              height = fst img_shape;
              width = snd img_shape;
              num_images = length spike_images;
              total_spikes = total_nonzero spike_images;
              max_cycles = budget spike_images spikes_per_unit
          in case build_big_image spike_images height width of
               Inl e \<Rightarrow> Inl e
             | Inr big \<Rightarrow>
                 (case focal_loop correlations num_images img_shape total_spikes max_cycles
                         \<lparr>big_image = big, ordered_spikes = [], wrong_max = False\<rparr> of
                    Inl e \<Rightarrow> Inl e
                  | Inr s \<Rightarrow> Inr (ordered_spikes s, wrong_max s)))"

section \<open>Auxiliary notions\<close>

subsection \<open>The window of a correction\<close>

text \<open>
  The limits \<^verbatim>\<open>min_img_row\<close> and \<^verbatim>\<open>max_img_row\<close> (and those of the columns) that
  \<^verbatim>\<open>adjust_with_correlation\<close> computes, as functions of half the image size, half the
  kernel width and the coordinate of the spike.
\<close>

definition win_lo :: "nat \<Rightarrow> nat \<Rightarrow> nat \<Rightarrow> nat" where
  "win_lo half h x = max (x div half * half) (x - h)"

definition win_hi :: "nat \<Rightarrow> nat \<Rightarrow> nat \<Rightarrow> nat" where
  "win_hi half h x = min ((x div half + 1) * half - 1) (x + h + 1)"

text \<open>Lines 223 to 230 of the source: the marking of infinite and not-a-number cells.\<close>

definition sanitize :: "ndarray \<Rightarrow> nat \<Rightarrow> nat \<Rightarrow> nat \<Rightarrow> nat \<Rightarrow> ndarray" where
  "sanitize img1 r0 c0 m n =
     (let inf_indices = where_eq img1 r0 c0 m n PInf;
          img2 = update_at img1 inf_indices (\<lambda>x. Fin 0);
          img3 = update_at img2 inf_indices (\<lambda>x. fsub x PInf);
          nan_indices = where_eq img3 r0 c0 m n NaN;
          img4 = update_at img3 nan_indices (\<lambda>x. Fin 0);
          img5 = update_at img4 nan_indices (\<lambda>x. fsub x PInf)
      in img5)"

subsection \<open>Well-formed inputs\<close>

text \<open>A value that is finite or the sentinel minus infinity.\<close>

fun regular :: "fval \<Rightarrow> bool" where
  "regular NInf = True"
| "regular (Fin x) = True"
| "regular PInf = False"
| "regular NaN = False"

fun is_finite :: "fval \<Rightarrow> bool" where
  "is_finite (Fin x) = True"
| "is_finite v = False"

definition regular_cells :: "ndarray \<Rightarrow> bool" where
  "regular_cells a = (\<forall>r<nrows a. \<forall>c<ncols a. regular (cell a (r, c)))"

definition finite_array :: "ndarray \<Rightarrow> bool" where
  "finite_array a = (\<forall>r<nrows a. \<forall>c<ncols a. is_finite (cell a (r, c)))"

text \<open>A correlation kernel: square, of odd side length, with finite entries.\<close>

definition kernel_ok :: "ndarray \<Rightarrow> bool" where
  "kernel_ok k = (ncols k = nrows k \<and> odd (nrows k) \<and> finite_array k)"

subsection \<open>Concrete arrays\<close>

text \<open>\<^verbatim>\<open>numpy.full(shape, v)\<close>, and an array with one cell replaced.\<close>

definition full :: "nat \<times> nat \<Rightarrow> fval \<Rightarrow> ndarray" where
  "full shape v = \<lparr>nrows = fst shape, ncols = snd shape, cell = (\<lambda>x. v)\<rparr>"

definition put :: "ndarray \<Rightarrow> nat \<times> nat \<Rightarrow> fval \<Rightarrow> ndarray" where
  "put a p v = a\<lparr>cell := (cell a)(p := v)\<rparr>"

section \<open>Properties\<close>

subsection \<open>Coordinates\<close>

lemma global_coords_in_range:
  fixes c r w H W :: nat
  assumes "c < 4" "r < H" "w < W"
  shows "r + (c div 2) * H < H * 2" "w + (c mod 2) * W < W * 2"
proof -
  have "c div 2 = 0 \<or> c div 2 = 1" using assms(1) by auto
  then show "r + (c div 2) * H < H * 2" using assms(2) by auto
  have "c mod 2 = 0 \<or> c mod 2 = 1" by auto
  then show "w + (c mod 2) * W < W * 2" using assms(3) by auto
qed

lemma unravel_local_to_global:
  assumes "c < 4" "r < H" "w < W"
  shows "unravel_index (local_coords_to_global_idx (r, w) c (H, W) (H * 2, W * 2)) (H * 2, W * 2)
         = Inr (r + (c div 2) * H, w + (c mod 2) * W)"
proof -
  let ?R = "r + (c div 2) * H" and ?C = "w + (c mod 2) * W"
  have R: "?R < H * 2" and C: "?C < W * 2" using global_coords_in_range[OF assms] by auto
  have idx: "local_coords_to_global_idx (r, w) c (H, W) (H * 2, W * 2) = ?R * (W * 2) + ?C"
    by (simp add: local_coords_to_global_idx_def)
  have "?R * (W * 2) + ?C < (H * 2) * (W * 2)"
  proof -
    have "?R * (W * 2) + ?C < ?R * (W * 2) + W * 2" using C by simp
    also have "\<dots> = (Suc ?R) * (W * 2)" by simp
    also have "\<dots> \<le> (H * 2) * (W * 2)" using R by (intro mult_le_mono1) simp
    finally show ?thesis .
  qed
  moreover have "(?R * (W * 2) + ?C) div (W * 2) = ?R" using C by simp
  moreover have "(?R * (W * 2) + ?C) mod (W * 2) = ?C" using C by simp
  ultimately show ?thesis unfolding idx unravel_index_def by simp
qed

lemma single_of_global:
  assumes "c < 4" "r < H" "w < W"
  shows "global_to_single_coords (r + (c div 2) * H, w + (c mod 2) * W) (H, W) = Inr (r, w)"
proof -
  have "(r + (c div 2) * H) div H = c div 2" using assms by simp
  moreover have "(w + (c mod 2) * W) div W = c mod 2" using assms by simp
  ultimately show ?thesis using assms by (simp add: global_to_single_coords_def)
qed

text \<open>
  Claim C8 (coordinate round trip). For a channel \<open>c\<close> in \<open>{0, 1, 2, 3}\<close> and a local
  coordinate \<open>(r, w)\<close> of an image of shape \<open>(H, W)\<close>, the global flat index that
  \<^verbatim>\<open>local_coords_to_global_idx\<close> computes for the composite shape \<open>(2H, 2W)\<close> unravels, with
  row stride \<open>2W\<close>, to a global coordinate that \<^verbatim>\<open>global_to_single_coords\<close> maps back to
  exactly \<open>(r, w)\<close>; neither step raises.
\<close>

theorem coordinate_round_trip:
  assumes "c < 4" "r < H" "w < W"
  shows "\<exists>g. unravel_index (local_coords_to_global_idx (r, w) c (H, W) (H * 2, W * 2)) (H * 2, W * 2) = Inr g
           \<and> global_to_single_coords g (H, W) = Inr (r, w)"
  using unravel_local_to_global[OF assms] single_of_global[OF assms] by simp

theorem coordinate_round_trip_witness:
  "(3::nat) < 4 \<and> (2::nat) < 4 \<and> (1::nat) < 5
   \<and> (\<exists>g. unravel_index (local_coords_to_global_idx (2, 1) 3 (4, 5) (4 * 2, 5 * 2)) (4 * 2, 5 * 2) = Inr g
           \<and> global_to_single_coords g (4, 5) = Inr (2, 1))"
  using coordinate_round_trip[of 3 2 4 1 5] by simp



subsection \<open>The overlap correction, unfolded\<close>

lemma adjust_unfold:
  "adjust_with_correlation img k idx mv own =
     (if ncols img = 0 \<or> nrows img div 2 = 0 \<or> ncols img div 2 = 0 then Inl ZeroDivisionError
      else
        let row = idx div ncols img; col = idx mod ncols img; h = nrows k div 2;
            r0 = win_lo (nrows img div 2) h row; r1 = win_hi (nrows img div 2) h row;
            c0 = win_lo (ncols img div 2) h col; c1 = win_hi (ncols img div 2) h col
        in case isub_scaled img (r0, r1) (c0, c1) mv k
                  (h - (row - r0), h + (r1 - row)) (h - (col - c0), h + (c1 - col)) of
             Inl e \<Rightarrow> Inl e
           | Inr img1 \<Rightarrow>
               let img5 = sanitize img1 r0 c0 (slice_len (nrows img) r0 r1) (slice_len (ncols img) c0 c1)
               in if own
                  then (if row < nrows img
                        then Inr (update_at img5 [(row, col)] (\<lambda>x. fsub x PInf))
                        else Inl IndexError)
                  else Inr img5)"
proof (cases "ncols img = 0 \<or> nrows img div 2 = 0 \<or> ncols img div 2 = 0")
  case True
  then show ?thesis
    by (auto simp add: adjust_with_correlation_def Let_def idx2coord_def)
next
  case False
  then have a: "(ncols img = 0) = False" "(nrows img div 2 = 0) = False" "(ncols img div 2 = 0) = False"
    by auto
  show ?thesis
    by (simp only: adjust_with_correlation_def Let_def idx2coord_def win_lo_def win_hi_def
          sanitize_def a if_False sum.case prod.case simp_thms)
qed


lemma feq_NaN [simp]: "feq x NaN = False"
  by (cases x) auto

lemma feq_PInf [simp]: "feq x PInf = (x = PInf)"
  by (cases x) auto

lemma feq_NInf [simp]: "feq x NInf = (x = NInf)"
  by (cases x) auto

lemma where_eq_NaN [simp]: "where_eq a r0 c0 m n NaN = []"
  by (simp add: where_eq_def)

lemma set_where_eq:
  "set (where_eq a r0 c0 m n v) = {p. fst p < m \<and> snd p < n \<and> feq (cell a (r0 + fst p, c0 + snd p)) v}"
  by (auto simp add: where_eq_def)

lemma update_at_Nil [simp]: "update_at a [] f = a"
  by (simp add: update_at_def)

lemma update_at_shape [simp]:
  "nrows (update_at a ix f) = nrows a" "ncols (update_at a ix f) = ncols a"
  by (simp_all add: update_at_def)

lemma cell_update_at:
  "cell (update_at a ix f) p = (if p \<in> set ix then f (cell a p) else cell a p)"
  by (simp add: update_at_def)

lemma sanitize_shape [simp]:
  "nrows (sanitize a r0 c0 m n) = nrows a" "ncols (sanitize a r0 c0 m n) = ncols a"
  by (simp_all add: sanitize_def Let_def)

lemma cell_sanitize:
  "cell (sanitize a r0 c0 m n) p =
     (if fst p < m \<and> snd p < n \<and> cell a (r0 + fst p, c0 + snd p) = PInf then NInf else cell a p)"
  by (simp add: sanitize_def Let_def cell_update_at set_where_eq)

lemma isub_scaled_Inr:
  assumes "isub_scaled img rows cols mv k krows kcols = Inr img1"
  shows "nrows img1 = nrows img" "ncols img1 = ncols img"
    and "cell img1 x =
      (if in_window (fst rows) (fst cols) (slice_len (nrows img) (fst rows) (snd rows))
            (slice_len (ncols img) (fst cols) (snd cols)) x
       then fsub (cell img x)
              (fmul mv (cell k
                 (fst krows + bidx (slice_len (nrows k) (fst krows) (snd krows)) (fst x - fst rows),
                  fst kcols + bidx (slice_len (ncols k) (fst kcols) (snd kcols)) (snd x - fst cols))))
       else cell img x)"
  using assms by (auto simp add: isub_scaled_def Let_def split: if_splits)

lemma win_lo_le: "win_lo half h x \<le> x"
  by (simp add: win_lo_def)

lemma win_hi_ge: "0 < half \<Longrightarrow> x \<le> win_hi half h x"
proof -
  assume "0 < half"
  then have "x < (x div half + 1) * half"
    by (metis Suc_eq_plus1 dividend_less_div_times mult.commute add.commute mult_Suc)
  then show ?thesis by (simp add: win_hi_def)
qed

lemma win_hi_le: "win_hi half h x \<le> (x div half + 1) * half - 1"
  by (simp add: win_hi_def)

lemma slice_len_le: "lo + slice_len n lo hi \<le> max lo hi"
  by (simp add: slice_len_def)


lemma adjust_Inr_cases:
  assumes "adjust_with_correlation img k idx mv own = Inr img'"
  obtains img1 where
    "0 < nrows img div 2" "0 < ncols img div 2"
    "isub_scaled img
        (win_lo (nrows img div 2) (nrows k div 2) (idx div ncols img),
         win_hi (nrows img div 2) (nrows k div 2) (idx div ncols img))
        (win_lo (ncols img div 2) (nrows k div 2) (idx mod ncols img),
         win_hi (ncols img div 2) (nrows k div 2) (idx mod ncols img)) mv k
        (nrows k div 2 - (idx div ncols img - win_lo (nrows img div 2) (nrows k div 2) (idx div ncols img)),
         nrows k div 2 + (win_hi (nrows img div 2) (nrows k div 2) (idx div ncols img) - idx div ncols img))
        (nrows k div 2 - (idx mod ncols img - win_lo (ncols img div 2) (nrows k div 2) (idx mod ncols img)),
         nrows k div 2 + (win_hi (ncols img div 2) (nrows k div 2) (idx mod ncols img) - idx mod ncols img))
      = Inr img1"
    "img' = (let img5 = sanitize img1
                 (win_lo (nrows img div 2) (nrows k div 2) (idx div ncols img))
                 (win_lo (ncols img div 2) (nrows k div 2) (idx mod ncols img))
                 (slice_len (nrows img) (win_lo (nrows img div 2) (nrows k div 2) (idx div ncols img))
                    (win_hi (nrows img div 2) (nrows k div 2) (idx div ncols img)))
                 (slice_len (ncols img) (win_lo (ncols img div 2) (nrows k div 2) (idx mod ncols img))
                    (win_hi (ncols img div 2) (nrows k div 2) (idx mod ncols img)))
             in if own then update_at img5 [(idx div ncols img, idx mod ncols img)] (\<lambda>x. fsub x PInf)
                else img5)"
  using assms unfolding adjust_unfold Let_def
  by (auto split: if_splits sum.splits)

text \<open>
  Claim C10 (last row and column). The exclusive upper limits of the window are
  \<open>min (down_lim - 1) (row + half_correlation_width + 1)\<close> and its column counterpart, so a
  call of \<^verbatim>\<open>adjust_with_correlation\<close> that returns leaves every cell of the row
  \<open>down_lim - 1\<close> and of the column \<open>right_lim - 1\<close> (the last row and the last column of
  the target quadrant) as it was, whatever the kernel and wherever the spike lies; the
  one exception is the spike's own cell when \<open>is_max_val_layer\<close> holds, from which
  infinity is subtracted.
\<close>

theorem last_row_and_column_kept:
  assumes adj: "adjust_with_correlation img correlation max_idx max_val is_max_val_layer = Inr img'"
    and row: "row = max_idx div ncols img" and col: "col = max_idx mod ncols img"
    and down: "down_lim = (row div (nrows img div 2) + 1) * (nrows img div 2)"
    and right: "right_lim = (col div (ncols img div 2) + 1) * (ncols img div 2)"
    and p: "fst p = down_lim - 1 \<or> snd p = right_lim - 1"
  shows "cell img' p =
           (if is_max_val_layer \<and> p = (row, col) then fsub (cell img p) PInf else cell img p)"
proof -
  let ?h = "nrows correlation div 2"
  let ?r0 = "win_lo (nrows img div 2) ?h row" and ?r1 = "win_hi (nrows img div 2) ?h row"
  let ?c0 = "win_lo (ncols img div 2) ?h col" and ?c1 = "win_hi (ncols img div 2) ?h col"
  let ?m = "slice_len (nrows img) ?r0 ?r1" and ?n = "slice_len (ncols img) ?c0 ?c1"
  from adj obtain img1 where hr: "0 < nrows img div 2" and hc: "0 < ncols img div 2"
    and sub: "isub_scaled img (?r0, ?r1) (?c0, ?c1) max_val correlation
                (?h - (row - ?r0), ?h + (?r1 - row)) (?h - (col - ?c0), ?h + (?c1 - col)) = Inr img1"
    and img': "img' = (let img5 = sanitize img1 ?r0 ?c0 ?m ?n
                       in if is_max_val_layer then update_at img5 [(row, col)] (\<lambda>x. fsub x PInf)
                          else img5)"
    unfolding row col by (rule adjust_Inr_cases)
  have r01: "?r0 \<le> ?r1" using win_lo_le[of "nrows img div 2" ?h row] win_hi_ge[OF hr, of row ?h] by simp
  have c01: "?c0 \<le> ?c1" using win_lo_le[of "ncols img div 2" ?h col] win_hi_ge[OF hc, of col ?h] by simp
  have rm: "?r0 + ?m \<le> ?r1" using slice_len_le[of ?r0 "nrows img" ?r1] r01 by simp
  have cn: "?c0 + ?n \<le> ?c1" using slice_len_le[of ?c0 "ncols img" ?c1] c01 by simp
  have r1: "?r1 \<le> down_lim - 1" unfolding down by (rule win_hi_le)
  have c1: "?c1 \<le> right_lim - 1" unfolding right by (rule win_hi_le)
  have out: "\<not> in_window ?r0 ?c0 ?m ?n p"
    using p rm cn r1 c1 by (auto simp add: in_window_def)
  have rel: "\<not> (fst p < ?m \<and> snd p < ?n)"
    using p rm cn r1 c1 by auto
  have "cell img1 p = cell img p"
    using isub_scaled_Inr(3)[OF sub, of p] out by simp
  then have "cell (sanitize img1 ?r0 ?c0 ?m ?n) p = cell img p"
    using rel by (auto simp add: cell_sanitize)
  then show ?thesis
    unfolding img' by (auto simp add: Let_def cell_update_at)
qed


theorem last_row_and_column_kept_witness:
  "\<exists>img'. adjust_with_correlation (full (6, 6) (Fin 1)) (full (3, 3) (Fin 1)) 14 (Fin 2) True = Inr img'
      \<and> cell img' (2, 2) = NInf \<and> cell img' (2, 1) = Fin 1 \<and> cell img' (1, 2) = Fin 1"
proof -
  let ?img = "full (6, 6) (Fin 1)"
  have "(case adjust_with_correlation ?img (full (3, 3) (Fin 1)) 14 (Fin 2) True of
           Inl e \<Rightarrow> False | Inr a \<Rightarrow> True)"
    by code_simp
  then obtain img' where a: "adjust_with_correlation ?img (full (3, 3) (Fin 1)) 14 (Fin 2) True = Inr img'"
    by (auto split: sum.splits)
  note t = last_row_and_column_kept[OF a refl refl refl refl]
  have "cell img' (2, 2) = NInf" using t[of "(2, 2)"] by (simp add: full_def)
  moreover have "cell img' (2, 1) = Fin 1" using t[of "(2, 1)"] by (simp add: full_def)
  moreover have "cell img' (1, 2) = Fin 1" using t[of "(1, 2)"] by (simp add: full_def)
  ultimately show ?thesis using a by blast
qed


subsection \<open>Corrections of a regular composite image\<close>

lemma regular_fsub_finite: "regular a \<Longrightarrow> is_finite b \<Longrightarrow> regular (fsub a b)"
  by (cases a; cases b) auto

lemma regular_fsub_PInf: "regular a \<Longrightarrow> fsub a PInf = NInf"
  by (cases a) auto

lemma fmul_finite: "is_finite b \<Longrightarrow> is_finite (fmul (Fin v) b)"
  by (cases b) auto

lemma regular_not_PInf: "regular a \<Longrightarrow> a \<noteq> PInf"
  by (cases a) auto

lemma slice_len_exact: "lo \<le> hi \<Longrightarrow> hi \<le> n \<Longrightarrow> slice_len n lo hi = hi - lo"
  by (simp add: slice_len_def)

lemma div_half_cases:
  fixes half x :: nat
  assumes "0 < half" "x < half * 2"
  shows "x div half = 0 \<or> x div half = 1"
proof -
  have "x div half < 2" using assms by (simp add: less_mult_imp_div_less mult.commute)
  then show ?thesis by auto
qed

lemma win_hi_less:
  assumes "0 < half" "x < half * 2"
  shows "win_hi half h x < half * 2"
  using div_half_cases[OF assms] assms(1)
  by (auto simp add: win_hi_def min_less_iff_disj)

lemma win_lo_near: "x - win_lo half h x \<le> h"
  by (simp add: win_lo_def)

lemma win_hi_near: "win_hi half h x - x \<le> h + 1"
  by (simp add: win_hi_def)


lemma kernel_index:
  fixes lo hi r x h :: nat
  assumes "lo \<le> r" "r < hi" "lo \<le> x" "x \<le> hi" "x - lo \<le> h" "hi - x \<le> h + 1"
  shows "h - (x - lo) + (r - lo) = h + r - x" "h + r - x < 2 * h + 1"
  using assms by linarith+

lemma adjust_regular:
  assumes shape: "nrows img = H * 2" "ncols img = W * 2"
    and pos: "0 < H" "0 < W"
    and idx: "idx < (H * 2) * (W * 2)"
    and k: "kernel_ok k"
    and reg: "regular_cells img"
  defines "row \<equiv> idx div (W * 2)" and "col \<equiv> idx mod (W * 2)" and "h \<equiv> nrows k div 2"
  defines "r0 \<equiv> win_lo H h row" and "r1 \<equiv> win_hi H h row"
    and "c0 \<equiv> win_lo W h col" and "c1 \<equiv> win_hi W h col"
  shows "\<exists>img'. adjust_with_correlation img k idx (Fin v) own = Inr img'
           \<and> nrows img' = H * 2 \<and> ncols img' = W * 2 \<and> regular_cells img'
           \<and> (\<forall>p. cell img' p =
                 (if own \<and> p = (row, col) then NInf
                  else if r0 \<le> fst p \<and> fst p < r1 \<and> c0 \<le> snd p \<and> snd p < c1
                       then fsub (cell img p) (fmul (Fin v) (cell k (h + fst p - row, h + snd p - col)))
                       else cell img p))
           \<and> (\<forall>p. r0 \<le> fst p \<and> fst p < r1 \<and> c0 \<le> snd p \<and> snd p < c1 \<longrightarrow>
                 h + fst p - row < nrows k \<and> h + snd p - col < ncols k
                 \<and> fst p < H * 2 \<and> snd p < W * 2)"
proof -
  have row: "row < H * 2" unfolding row_def using idx
    by (simp add: less_mult_imp_div_less)
  have col: "col < W * 2" unfolding col_def using pos by simp
  have kodd: "nrows k = 2 * h + 1" and ksq: "ncols k = nrows k" and kfin: "finite_array k"
    using k unfolding kernel_ok_def h_def by (auto elim: oddE)
  have r01: "r0 \<le> row" "row \<le> r1" "r1 < H * 2" "row - r0 \<le> h" "r1 - row \<le> h + 1"
    unfolding r0_def r1_def
    using win_lo_le win_hi_ge[OF pos(1)] win_hi_less[OF pos(1) row] win_lo_near win_hi_near
    by auto
  have c01: "c0 \<le> col" "col \<le> c1" "c1 < W * 2" "col - c0 \<le> h" "c1 - col \<le> h + 1"
    unfolding c0_def c1_def
    using win_lo_le win_hi_ge[OF pos(2)] win_hi_less[OF pos(2) col] win_lo_near win_hi_near
    by auto
  define m where "m = r1 - r0"
  define n where "n = c1 - c0"
  have m: "slice_len (nrows img) r0 r1 = m"
    unfolding m_def shape using r01 by (intro slice_len_exact) auto
  have n: "slice_len (ncols img) c0 c1 = n"
    unfolding n_def shape using c01 by (intro slice_len_exact) auto
  have pk: "slice_len (nrows k) (h - (row - r0)) (h + (r1 - row)) = m"
    unfolding m_def kodd using r01 by (subst slice_len_exact) auto
  have qk: "slice_len (ncols k) (h - (col - c0)) (h + (c1 - col)) = n"
    unfolding n_def ksq kodd using c01 by (subst slice_len_exact) auto
  have halves: "nrows img div 2 = H" "ncols img div 2 = W"
    unfolding shape by simp_all
  have conds: "\<not> (ncols img = 0 \<or> nrows img div 2 = 0 \<or> ncols img div 2 = 0)"
    unfolding halves shape using pos by simp
  define img1 where "img1 = img\<lparr>cell := (\<lambda>x.
      if in_window r0 c0 m n x
      then fsub (cell img x)
             (fmul (Fin v) (cell k (h - (row - r0) + bidx m (fst x - r0),
                                    h - (col - c0) + bidx n (snd x - c0))))
      else cell img x)\<rparr>"
  have sub: "isub_scaled img (r0, r1) (c0, c1) (Fin v) k
               (h - (row - r0), h + (r1 - row)) (h - (col - c0), h + (c1 - col)) = Inr img1"
    unfolding isub_scaled_def Let_def fst_conv snd_conv m n pk qk img1_def
    by (simp add: broadcastable_def)
  have inwin: "in_window r0 c0 m n x \<longleftrightarrow> r0 \<le> fst x \<and> fst x < r1 \<and> c0 \<le> snd x \<and> snd x < c1" for x
    unfolding in_window_def m_def n_def using r01 c01 by auto
  have bm: "bidx m (fst x - r0) = fst x - r0" if "in_window r0 c0 m n x" for x
    using that unfolding bidx_def in_window_def by auto
  have bn: "bidx n (snd x - c0) = snd x - c0" if "in_window r0 c0 m n x" for x
    using that unfolding bidx_def in_window_def by auto
  have cell1: "cell img1 x =
      (if r0 \<le> fst x \<and> fst x < r1 \<and> c0 \<le> snd x \<and> snd x < c1
       then fsub (cell img x) (fmul (Fin v) (cell k (h + fst x - row, h + snd x - col)))
       else cell img x)" for x
  proof (cases "in_window r0 c0 m n x")
    case True
    then have w: "r0 \<le> fst x" "fst x < r1" "c0 \<le> snd x" "snd x < c1" using inwin by auto
    have e1: "h - (row - r0) + (fst x - r0) = h + fst x - row"
      using kernel_index(1)[OF w(1) w(2) r01(1) r01(2) r01(4) r01(5)] .
    have e2: "h - (col - c0) + (snd x - c0) = h + snd x - col"
      using kernel_index(1)[OF w(3) w(4) c01(1) c01(2) c01(4) c01(5)] .
    have "cell img1 x = fsub (cell img x)
             (fmul (Fin v) (cell k (h - (row - r0) + bidx m (fst x - r0),
                                    h - (col - c0) + bidx n (snd x - c0))))"
      unfolding img1_def using True by simp
    also have "\<dots> = fsub (cell img x) (fmul (Fin v) (cell k (h + fst x - row, h + snd x - col)))"
      by (simp only: bm[OF True] bn[OF True] e1 e2)
    finally show ?thesis using w by simp
  next
    case False
    then have nw: "(r0 \<le> fst x \<and> fst x < r1 \<and> c0 \<le> snd x \<and> snd x < c1) = False"
      using inwin[of x] by simp
    have "cell img1 x = cell img x" unfolding img1_def using False by simp
    then show ?thesis by (simp only: nw if_False)
  qed
  have regimg: "regular (cell img x)" if "fst x < H * 2" "snd x < W * 2" for x
    using reg that unfolding regular_cells_def shape by (cases x) auto
  have reg1: "regular (cell img1 x)" if x: "fst x < H * 2" "snd x < W * 2" for x
  proof (cases "r0 \<le> fst x \<and> fst x < r1 \<and> c0 \<le> snd x \<and> snd x < c1")
    case True
    then have w: "r0 \<le> fst x" "fst x < r1" "c0 \<le> snd x" "snd x < c1" by auto
    have "h + fst x - row < nrows k" unfolding kodd
      using kernel_index(2)[OF w(1) w(2) r01(1) r01(2) r01(4) r01(5)] .
    moreover have "h + snd x - col < ncols k" unfolding ksq kodd
      using kernel_index(2)[OF w(3) w(4) c01(1) c01(2) c01(4) c01(5)] .
    ultimately have "is_finite (cell k (h + fst x - row, h + snd x - col))"
      using kfin unfolding finite_array_def by blast
    then have "regular (fsub (cell img x) (fmul (Fin v) (cell k (h + fst x - row, h + snd x - col))))"
      using regimg[OF x] by (intro regular_fsub_finite fmul_finite)
    then show ?thesis using True by (auto simp add: cell1)
  next
    case False
    then show ?thesis using regimg[OF x] by (auto simp add: cell1)
  qed
  have san: "cell (sanitize img1 r0 c0 m n) x = cell img1 x" for x
  proof -
    have "cell img1 (r0 + fst x, c0 + snd x) \<noteq> PInf" if "fst x < m" "snd x < n"
    proof -
      have "r0 + fst x < H * 2" "c0 + snd x < W * 2"
        using that r01 c01 unfolding m_def n_def by auto
      then show ?thesis using reg1[of "(r0 + fst x, c0 + snd x)"] regular_not_PInf by auto
    qed
    then show ?thesis by (auto simp add: cell_sanitize)
  qed
  define img5 where "img5 = sanitize img1 r0 c0 m n"
  define img' where "img' = (if own then update_at img5 [(row, col)] (\<lambda>x. fsub x PInf) else img5)"
  have shape1: "nrows img1 = H * 2" "ncols img1 = W * 2"
    unfolding img1_def using shape by simp_all
  have res: "adjust_with_correlation img k idx (Fin v) own = Inr img'"
    unfolding adjust_unfold Let_def
    using conds sub row
    by (simp add: halves shape row_def[symmetric] col_def[symmetric] h_def[symmetric]
          r0_def[symmetric] r1_def[symmetric] c0_def[symmetric] c1_def[symmetric] m[unfolded shape] n[unfolded shape]
          img'_def img5_def)
  have own_cell: "fsub (cell img1 (row, col)) PInf = NInf"
    using reg1[of "(row, col)"] row col by (intro regular_fsub_PInf) auto
  have "cell img' p =
      (if own \<and> p = (row, col) then NInf
       else if r0 \<le> fst p \<and> fst p < r1 \<and> c0 \<le> snd p \<and> snd p < c1
            then fsub (cell img p) (fmul (Fin v) (cell k (h + fst p - row, h + snd p - col)))
            else cell img p)" for p
  proof (cases "own \<and> p = (row, col)")
    case True
    then show ?thesis using own_cell by (simp add: img'_def img5_def cell_update_at san)
  next
    case False
    then show ?thesis using cell1[of p] by (auto simp add: img'_def img5_def cell_update_at san)
  qed
  note cells = this
  have shape': "nrows img' = H * 2" "ncols img' = W * 2"
    unfolding img'_def img5_def using shape1 by auto
  have "regular (cell img' (r, c))" if "r < H * 2" "c < W * 2" for r c
  proof (cases "own \<and> (r, c) = (row, col)")
    case True
    then show ?thesis using cells[of "(r, c)"] by simp
  next
    case False
    then have "cell img' (r, c) = cell img1 (r, c)"
      by (auto simp add: img'_def img5_def cell_update_at san)
    then show ?thesis using reg1[of "(r, c)"] that by simp
  qed
  then have reg': "regular_cells img'"
    unfolding regular_cells_def shape' by blast
  have "h + fst p - row < nrows k \<and> h + snd p - col < ncols k \<and> fst p < H * 2 \<and> snd p < W * 2"
    if w: "r0 \<le> fst p \<and> fst p < r1 \<and> c0 \<le> snd p \<and> snd p < c1" for p
  proof -
    from w have w': "r0 \<le> fst p" "fst p < r1" "c0 \<le> snd p" "snd p < c1" by auto
    have "h + fst p - row < nrows k" unfolding kodd
      using kernel_index(2)[OF w'(1) w'(2) r01(1) r01(2) r01(4) r01(5)] .
    moreover have "h + snd p - col < ncols k" unfolding ksq kodd
      using kernel_index(2)[OF w'(3) w'(4) c01(1) c01(2) c01(4) c01(5)] .
    ultimately show ?thesis using w' r01(3) c01(3) by auto
  qed
  then show ?thesis using res shape' reg' cells by blast
qed


subsection \<open>Runs on concrete inputs\<close>

text \<open>
  Claim C1 (length of the output), at an input where the source fails. With a single
  non-zero cell in the four maps and \<open>spikesPerUnit = 1\<close> the budget is one pass, and the
  progress line of that pass divides by \<open>total_spikes - 1 = 0\<close>: \<^verbatim>\<open>focal\<close> raises
  \<^verbatim>\<open>ZeroDivisionError\<close> and returns no sequence.
\<close>

theorem progress_division_by_zero:
  "focal [full (1,1) (Fin 1), full (1,1) (Fin 0), full (1,1) (Fin 0), full (1,1) (Fin 0)]
     (\<lambda>i j. full (1,1) (Fin 0)) 1 = Inl ZeroDivisionError"
  by code_simp

text \<open>
  Claim C4 (frame of a correction), at an input where the source fails. The target is
  the quadrant of channel 3 of a \<open>4 \<times> 4\<close> composite image, and the one cell of the
  window, \<open>(2, 2)\<close>, holds plus infinity after the subtraction. The sanitization finds it
  at the window-relative position \<open>(0, 0)\<close> and writes there in the whole image: the cell
  \<open>(0, 0)\<close> of channel 0's quadrant becomes minus infinity, and \<open>(2, 2)\<close> keeps plus
  infinity.
\<close>

theorem sanitization_writes_outside_quadrant:
  "(case adjust_with_correlation (put (full (4,4) (Fin 1)) (2,2) PInf) (full (1,1) (Fin 0)) 10 (Fin 1) False of
      Inl e \<Rightarrow> None
    | Inr img' \<Rightarrow> Some (cell img' (0,0), cell img' (2,2))) = Some (NInf, PInf)"
  by code_simp

text \<open>
  Claim C5 (stop on a bad maximum), at an input where the source fails. The maximum of
  the composite image is not-a-number; the test \<^verbatim>\<open>max_val == numpy.nan\<close> is false, so the
  loop goes on, appends the not-a-number spike, and, as subtracting infinity leaves the
  cell not-a-number, appends it again in the next pass. Nothing is written to the error
  stream.
\<close>

theorem nan_maximum_is_emitted:
  "focal [full (1,1) NaN, full (1,1) (Fin 1), full (1,1) (Fin 0), full (1,1) (Fin 0)]
     (\<lambda>i j. full (1,1) (Fin 0)) 1 = Inr ([(0, NaN, 0), (0, NaN, 0)], False)"
  by code_simp

text \<open>
  Claim C6 (sanitization of the window), at an input where the source fails. The window
  of the correction is rows 3 to 4 and columns 3 to 4 of a \<open>6 \<times> 6\<close> composite image; after
  the subtraction \<open>(3, 3)\<close> holds plus infinity and \<open>(4, 4)\<close> not-a-number. After the call
  both are still there, and the cell \<open>(0, 0)\<close>, outside the window, is minus infinity.
\<close>

theorem sanitization_misses_inf_and_nan:
  "(case adjust_with_correlation (put (put (full (6,6) (Fin 1)) (3,3) PInf) (4,4) NaN)
           (full (3,3) (Fin 0)) 28 (Fin 1) False of
      Inl e \<Rightarrow> None
    | Inr img' \<Rightarrow> Some (cell img' (3,3), cell img' (4,4), cell img' (0,0))) = Some (PInf, NaN, NInf)"
  by code_simp

end
